theory Spec2Isabelle
  imports Main "HOL-Library.Char_ord" "HOL-Library.List_Lexorder"
begin

section \<open>The booking gateway of meeting-room\<close>

text \<open>
  The repository holds two variants of one Express server: \<^verbatim>\<open>src/server.js\<close> (its first
  line calls it the updated version) and an earlier file without the authentication
  middleware. Both are embedded here, handler by handler. The hosted store and the identity
  provider are outside the repository; they appear as an environment record and as a small
  model of a table keyed by \<^verbatim>\<open>id\<close>.
\<close>

subsection \<open>JavaScript values of a parsed JSON body\<close>

text \<open>
  \<^verbatim>\<open>express.json()\<close> hands the handlers the parsed body. \<open>Undefined\<close> is what reading a
  missing property gives; it never occurs inside a parsed body. Numbers are the integers
  (a fraction never matches the patterns below and is truthy unless zero). An object is its
  list of own properties; a parsed body has each key once.
\<close>

datatype jsval =
    Undefined
  | Null
  | Bool bool
  | Num int
  | Str string
  | Arr "jsval list"
  | Obj "(string \<times> jsval) list"

text \<open>
  The exception the language itself raises in the handlers. (An error that the store or the
  provider reports is a field of its answer; the handlers test it and answer 500.)
\<close>

datatype js_error = TypeError

definition and_then :: "'e + 'a \<Rightarrow> ('a \<Rightarrow> 'e + 'b) \<Rightarrow> 'e + 'b" where
  "and_then r f = (case r of Inl e \<Rightarrow> Inl e | Inr v \<Rightarrow> f v)"

text \<open>The truthiness test of \<^verbatim>\<open>&&\<close>, \<^verbatim>\<open>||\<close>, \<^verbatim>\<open>!\<close> and \<^verbatim>\<open>?:\<close>.\<close>

fun truthy :: "jsval \<Rightarrow> bool" where
  "truthy Undefined = False"
| "truthy Null = False"
| "truthy (Bool b) = b"
| "truthy (Num n) = (n \<noteq> 0)"
| "truthy (Str s) = (s \<noteq> [])"
| "truthy (Arr xs) = True"
| "truthy (Obj kvs) = True"

text \<open>
  \<^verbatim>\<open>event.title\<close>: reading a property of \<^verbatim>\<open>null\<close> or \<^verbatim>\<open>undefined\<close> throws; an object
  gives its own property or \<^verbatim>\<open>undefined\<close>; every other value gives \<^verbatim>\<open>undefined\<close> for the
  names the handlers read (\<^verbatim>\<open>id\<close>, \<^verbatim>\<open>title\<close>, \<^verbatim>\<open>date\<close>, \<^verbatim>\<open>startTime\<close>, \<^verbatim>\<open>endTime\<close>), none of
  which is inherited from a prototype.
\<close>

fun get_prop :: "jsval \<Rightarrow> string \<Rightarrow> js_error + jsval" where
  "get_prop Undefined k = Inl TypeError"
| "get_prop Null k = Inl TypeError"
| "get_prop (Obj kvs) k = Inr (case map_of kvs k of Some v \<Rightarrow> v | None \<Rightarrow> Undefined)"
| "get_prop v k = Inr Undefined"

text \<open>Decimal digits of a number, as \<^verbatim>\<open>String(n)\<close> prints an integer.\<close>

definition digit_char :: "nat \<Rightarrow> char" where
  "digit_char d = ''0123456789'' ! (d mod 10)"

function digits :: "nat \<Rightarrow> string" where
  "digits n = (if n < 10 then [digit_char n] else digits (n div 10) @ [digit_char n])"
  by pat_completeness auto
termination
  by (relation "measure id") auto

declare digits.simps [simp del]

definition show_int :: "int \<Rightarrow> string" where
  "show_int i = (if i < 0 then CHR ''-'' # digits (nat (- i)) else digits (nat i))"

text \<open>\<^verbatim>\<open>Array.prototype.join\<close> with the separator \<^verbatim>\<open>,\<close> over already converted elements.\<close>

fun join_comma :: "string list \<Rightarrow> string" where
  "join_comma [] = []"
| "join_comma [s] = s"
| "join_comma (s # t # rest) = s @ CHR '','' # join_comma (t # rest)"

text \<open>
  The conversion \<^verbatim>\<open>RegExp.prototype.test\<close> applies to its argument (ToString). An array
  is the join of its elements, where \<^verbatim>\<open>null\<close> and \<^verbatim>\<open>undefined\<close> elements give the empty
  string. A plain object prints as \<^verbatim>\<open>[object Object]\<close> through the inherited
  \<^verbatim>\<open>toString\<close>; an own property of that name is parsed data, not callable, and the
  inherited \<^verbatim>\<open>valueOf\<close> returns the object itself, so the conversion throws.
\<close>

fun to_string :: "jsval \<Rightarrow> js_error + string"
  and elems_to_strings :: "jsval list \<Rightarrow> js_error + string list" where
  "to_string Undefined = Inr ''undefined''"
| "to_string Null = Inr ''null''"
| "to_string (Bool b) = Inr (if b then ''true'' else ''false'')"
| "to_string (Num n) = Inr (show_int n)"
| "to_string (Str s) = Inr s"
| "to_string (Arr xs) =
     (case elems_to_strings xs of Inl e \<Rightarrow> Inl e | Inr ss \<Rightarrow> Inr (join_comma ss))"
| "to_string (Obj kvs) =
     (if map_of kvs ''toString'' = None then Inr ''[object Object]'' else Inl TypeError)"
| "elems_to_strings [] = Inr []"
| "elems_to_strings (x # xs) =
     (case (if x = Null \<or> x = Undefined then Inr [] else to_string x) of
        Inl e \<Rightarrow> Inl e
      | Inr s \<Rightarrow> (case elems_to_strings xs of Inl e \<Rightarrow> Inl e | Inr ss \<Rightarrow> Inr (s # ss)))"

subsection \<open>The two patterns of the validation\<close>

text \<open>
  \<^verbatim>\<open>/^\d{4}-\d{2}-\d{2}$/\<close> and \<^verbatim>\<open>/^\d{2}:\d{2}$/\<close> have no flags: \<^verbatim>\<open>^\<close> and \<^verbatim>\<open>$\<close> are the
  two ends of the input and \<^verbatim>\<open>\d\<close> is one of the ten ASCII digits, so a pattern is a
  list of atoms that the input has to match position by position.
\<close>

datatype atom = Digit | Lit char

definition is_digit :: "char \<Rightarrow> bool" where
  "is_digit c = (c \<in> set ''0123456789'')"

fun atom_ok :: "atom \<Rightarrow> char \<Rightarrow> bool" where
  "atom_ok Digit c = is_digit c"
| "atom_ok (Lit l) c = (c = l)"

definition matches :: "atom list \<Rightarrow> string \<Rightarrow> bool" where
  "matches p s = list_all2 atom_ok p s"

definition date_pattern :: "atom list" where
  "date_pattern = [Digit, Digit, Digit, Digit, Lit CHR ''-'', Digit, Digit, Lit CHR ''-'',
     Digit, Digit]"

definition time_pattern :: "atom list" where
  "time_pattern = [Digit, Digit, Lit CHR '':'', Digit, Digit]"

definition re_test :: "atom list \<Rightarrow> jsval \<Rightarrow> js_error + bool" where
  "re_test p v = (case to_string v of Inl e \<Rightarrow> Inl e | Inr s \<Rightarrow> Inr (matches p s))"

text \<open>\<^verbatim>\<open>s.split(c)\<close> for a one-character separator: never an empty array.\<close>

fun split_on :: "char \<Rightarrow> string \<Rightarrow> string list" where
  "split_on c [] = [[]]"
| "split_on c (x # xs) =
     (if x = c then [] # split_on c xs
      else (case split_on c xs of p # ps \<Rightarrow> (x # p) # ps | [] \<Rightarrow> [[x]]))"

subsection \<open>The identity provider, the clock and the store\<close>

text \<open>
  A user as the provider reports it: \<^verbatim>\<open>user.id\<close> and \<^verbatim>\<open>user.email\<close> (absent for an account
  without an address). Both \<^verbatim>\<open>supabase.auth.getUser\<close> and
  \<^verbatim>\<open>supabase.auth.admin.getUserById\<close> answer \<^verbatim>\<open>{ data: { user }, error }\<close> or throw.
\<close>

record user =
  uid :: string
  email :: "string option"

datatype provider_reply = Reply "user option" bool | Raises

datatype store_call = SelectAll | SelectSingle | Upsert | Delete

text \<open>
  What lies outside the process during one request: the provider's answers, the reading
  \<^verbatim>\<open>Date.now()\<close> gives while the element at a position is mapped, and whether the store
  reports an error for a call for reasons of its own (network, schema, permissions).
\<close>

record env =
  getUser :: "string option \<Rightarrow> provider_reply"
  getUserById :: "string \<Rightarrow> provider_reply"
  now :: "nat \<Rightarrow> int"
  store_fails :: "store_call \<Rightarrow> bool"

text \<open>A row of the table \<^verbatim>\<open>bookings\<close>; the columns hold the values as they were sent.\<close>

record row =
  row_id :: jsval
  row_title :: jsval
  row_date :: jsval
  start_time :: jsval
  end_time :: jsval
  user_id :: string

type_synonym store = "row list"

text \<open>The answer \<^verbatim>\<open>{ data, error }\<close> of a query.\<close>

datatype 'a db_reply = DbReply "'a option" bool

text \<open>
  The store is a table with \<^verbatim>\<open>id\<close> as its key. An identifier is a number or a text, and
  its key is its text, so that the number 7 and the text \<^verbatim>\<open>7\<close> are one key; the same text is
  what \<^verbatim>\<open>.eq('id', p)\<close> compares with the text \<open>p\<close> of the URL.
  \<^verbatim>\<open>.order('date', { ascending: true })\<close> sorts by the text of the date column, a date
  that is no text as the empty text.
  \<^verbatim>\<open>.single()\<close> answers one row when exactly one row is selected and an error otherwise,
  with no rows as with several. \<^verbatim>\<open>.upsert(rows)\<close> replaces the row of the same key or
  appends; as one statement it changes nothing when it fails, and it fails when a row's
  identifier is neither a number nor a text or when two rows of the batch have the same key.
\<close>

definition id_text :: "jsval \<Rightarrow> string option" where
  "id_text v = (case v of Num n \<Rightarrow> Some (show_int n) | Str s \<Rightarrow> Some s | _ \<Rightarrow> None)"

definition row_key :: "row \<Rightarrow> string option" where
  "row_key r = id_text (row_id r)"

definition id_matches :: "string \<Rightarrow> jsval \<Rightarrow> bool" where
  "id_matches p v = (id_text v = Some p)"

definition order_key :: "jsval \<Rightarrow> string" where
  "order_key v = (case v of Str s \<Rightarrow> s | _ \<Rightarrow> [])"

definition db_select_all :: "env \<Rightarrow> store \<Rightarrow> row list db_reply" where
  "db_select_all env st =
     (if store_fails env SelectAll then DbReply None True
      else DbReply (Some (sort_key (\<lambda>r. order_key (row_date r)) st)) False)"

definition db_select_single :: "env \<Rightarrow> string \<Rightarrow> store \<Rightarrow> string db_reply" where
  "db_select_single env p st =
     (if store_fails env SelectSingle then DbReply None True
      else (case filter (\<lambda>r. id_matches p (row_id r)) st of
              [r] \<Rightarrow> DbReply (Some (user_id r)) False
            | _ \<Rightarrow> DbReply None True))"

fun upsert_row :: "row \<Rightarrow> store \<Rightarrow> store" where
  "upsert_row r [] = [r]"
| "upsert_row r (x # xs) = (if row_key x = row_key r then r # xs else x # upsert_row r xs)"

definition db_upsert :: "env \<Rightarrow> row list \<Rightarrow> store \<Rightarrow> bool \<times> store" where
  "db_upsert env batch st =
     (if store_fails env Upsert \<or> None \<in> set (map row_key batch)
         \<or> \<not> distinct (map row_key batch)
      then (True, st)
      else (False, fold upsert_row batch st))"

definition db_delete :: "env \<Rightarrow> string \<Rightarrow> store \<Rightarrow> bool \<times> store" where
  "db_delete env p st =
     (if store_fails env Delete then (True, st)
      else (False, filter (\<lambda>r. \<not> id_matches p (row_id r)) st))"

subsection \<open>Requests and responses\<close>

text \<open>
  A request as a route handler sees it. \<^verbatim>\<open>express.json()\<close> runs before the routes and
  answers a body it refuses by itself, so such a request reaches no handler.
\<close>

record request =
  authorization :: "string option"
  req_body :: jsval
  param_id :: string

record item =
  item_id :: jsval
  item_title :: jsval
  item_date :: jsval
  startTime :: jsval
  endTime :: jsval
  userId :: string
  userEmail :: string
  userName :: string

datatype body =
    Error string
  | ErrorExample string "(string \<times> string) list"
  | Saved nat
  | Success
  | Listing "item list"

datatype response = Response nat body

subsection \<open>The authentication middleware (\<^verbatim>\<open>src/server.js\<close>, lines 40 to 60)\<close>

definition bearer_token :: "string \<Rightarrow> string option" where
  "bearer_token authHeader =
     (case split_on CHR '' '' authHeader of p # token # rest \<Rightarrow> Some token | _ \<Rightarrow> None)"

text \<open>\<open>Inl\<close> is the response that ends the request, \<open>Inr\<close> the user put into \<^verbatim>\<open>req.user\<close>.\<close>

definition authenticate :: "env \<Rightarrow> request \<Rightarrow> response + user" where
  "authenticate env req =
     (case authorization req of
        None \<Rightarrow> Inl (Response 401 (Error ''Unauthorized - No token provided''))
      | Some authHeader \<Rightarrow>
          if authHeader = [] then Inl (Response 401 (Error ''Unauthorized - No token provided''))
          else (case getUser env (bearer_token authHeader) of
                  Raises \<Rightarrow> Inl (Response 500 (Error ''Authentication failed''))
                | Reply u error \<Rightarrow>
                    (case u of
                       None \<Rightarrow> Inl (Response 401 (Error ''Unauthorized - Invalid token''))
                     | Some usr \<Rightarrow>
                         if error then Inl (Response 401 (Error ''Unauthorized - Invalid token''))
                         else Inr usr)))"

subsection \<open>GET /api/data (lines 69 to 121; the same text in the earlier file)\<close>

text \<open>\<^verbatim>\<open>[...new Set(xs)]\<close>: the distinct elements in the order of their first occurrence.\<close>

definition uniq :: "'a list \<Rightarrow> 'a list" where
  "uniq xs = fold (\<lambda>x seen. if x \<in> set seen then seen else seen @ [x]) xs []"

text \<open>
  \<^verbatim>\<open>userEmails\<close> is a plain object, \<^verbatim>\<open>{}\<close>: its own properties (a value is a text, or
  \<^verbatim>\<open>undefined\<close> when an absent \<^verbatim>\<open>user.email\<close> was assigned) in front of what it inherits
  from \<^verbatim>\<open>Object.prototype\<close>. The inherited members are functions, and \<^verbatim>\<open>__proto__\<close> reads
  as the prototype object itself: all truthy and none with a \<^verbatim>\<open>split\<close> method. Assigning
  to \<^verbatim>\<open>__proto__\<close> runs the inherited setter, which ignores a text and \<^verbatim>\<open>undefined\<close>; any
  other assignment creates or replaces an own property.
\<close>

definition object_prototype_members :: "string list" where
  "object_prototype_members =
     [''constructor'', ''__defineGetter__'', ''__defineSetter__'', ''hasOwnProperty'',
      ''__lookupGetter__'', ''__lookupSetter__'', ''isPrototypeOf'', ''propertyIsEnumerable'',
      ''toString'', ''valueOf'', ''__proto__'', ''toLocaleString'']"

type_synonym plain_object = "string \<rightharpoonup> string option"

datatype looked_up = Text string | Absent | Inherited

text \<open>\<^verbatim>\<open>userEmails[key] = v\<close> and \<^verbatim>\<open>userEmails[key]\<close>.\<close>

definition assign :: "plain_object \<Rightarrow> string \<Rightarrow> string option \<Rightarrow> plain_object" where
  "assign obj key v = (if key = ''__proto__'' then obj else obj(key \<mapsto> v))"

definition look_up :: "plain_object \<Rightarrow> string \<Rightarrow> looked_up" where
  "look_up obj key =
     (case obj key of
        Some (Some e) \<Rightarrow> Text e
      | Some None \<Rightarrow> Absent
      | None \<Rightarrow> if key \<in> set object_prototype_members then Inherited else Absent)"

text \<open>One round of the loop over \<^verbatim>\<open>userIds\<close>.\<close>

definition fetch_email :: "env \<Rightarrow> string \<Rightarrow> plain_object \<Rightarrow> plain_object" where
  "fetch_email env owner userEmails =
     (case getUserById env owner of
        Raises \<Rightarrow> assign userEmails owner (Some ''Unknown User'')
      | Reply u userError \<Rightarrow>
          (case u of
             None \<Rightarrow> userEmails
           | Some usr \<Rightarrow>
               if userError then userEmails else assign userEmails owner (email usr)))"

definition first_part :: "string \<Rightarrow> string" where
  "first_part s = (case split_on CHR ''@'' s of p # ps \<Rightarrow> p | [] \<Rightarrow> [])"

text \<open>
  The callback of \<^verbatim>\<open>bookings.map\<close>. For an inherited value the field \<^verbatim>\<open>userEmail\<close> would
  be that value, and computing \<^verbatim>\<open>userName\<close> calls its missing \<^verbatim>\<open>split\<close>: a \<^verbatim>\<open>TypeError\<close>.
\<close>

definition transform :: "plain_object \<Rightarrow> row \<Rightarrow> js_error + item" where
  "transform userEmails r =
     (case look_up userEmails (user_id r) of
        Inherited \<Rightarrow> Inl TypeError
      | Absent \<Rightarrow>
          Inr \<lparr> item_id = row_id r, item_title = row_title r, item_date = row_date r,
                startTime = start_time r, endTime = end_time r, userId = user_id r,
                userEmail = ''Unknown User'', userName = ''Unknown'' \<rparr>
      | Text e \<Rightarrow>
          Inr \<lparr> item_id = row_id r, item_title = row_title r, item_date = row_date r,
                startTime = start_time r, endTime = end_time r, userId = user_id r,
                userEmail = (if e \<noteq> [] then e else ''Unknown User''),
                userName = (if e \<noteq> [] then first_part e else ''Unknown'') \<rparr>)"

text \<open>\<^verbatim>\<open>Array.prototype.map\<close> with a callback that can throw.\<close>

fun map_js :: "('a \<Rightarrow> js_error + 'b) \<Rightarrow> 'a list \<Rightarrow> js_error + 'b list" where
  "map_js f [] = Inr []"
| "map_js f (x # xs) =
     (case f x of
        Inl e \<Rightarrow> Inl e
      | Inr y \<Rightarrow> (case map_js f xs of Inl e \<Rightarrow> Inl e | Inr ys \<Rightarrow> Inr (y # ys)))"

definition get_data :: "env \<Rightarrow> store \<Rightarrow> request \<Rightarrow> response" where
  "get_data env st req =
     (case db_select_all env st of
        DbReply d bookingsError \<Rightarrow>
          if bookingsError then Response 500 (Error ''Failed to load data'')
          else (case d of
                  None \<Rightarrow> Response 500 (Error ''Failed to load data'')
                | Some bookings \<Rightarrow>
                    (let userIds = uniq (map user_id bookings);
                         userEmails = fold (fetch_email env) userIds Map.empty
                     in (case map_js (transform userEmails) bookings of
                           Inl e \<Rightarrow> Response 500 (Error ''Failed to load data'')
                         | Inr transformedData \<Rightarrow> Response 200 (Listing transformedData)))))"

subsection \<open>POST /api/data\<close>

text \<open>The callback of \<^verbatim>\<open>req.body.every\<close>, with the short circuit of \<^verbatim>\<open>&&\<close>.\<close>

definition valid_event :: "jsval \<Rightarrow> js_error + bool" where
  "valid_event event =
     and_then (get_prop event ''title'') (\<lambda>title.
       if \<not> truthy title then Inr False
       else and_then (get_prop event ''date'') (\<lambda>d.
         and_then (re_test date_pattern d) (\<lambda>dateOk.
           if \<not> dateOk then Inr False
           else and_then (get_prop event ''startTime'') (\<lambda>s.
             and_then (re_test time_pattern s) (\<lambda>startOk.
               if \<not> startOk then Inr False
               else and_then (get_prop event ''endTime'') (\<lambda>t.
                 re_test time_pattern t))))))"

text \<open>\<^verbatim>\<open>Array.prototype.every\<close>: stops at the first element the callback rejects.\<close>

fun every :: "('a \<Rightarrow> js_error + bool) \<Rightarrow> 'a list \<Rightarrow> js_error + bool" where
  "every f [] = Inr True"
| "every f (x # xs) =
     (case f x of Inl e \<Rightarrow> Inl e | Inr ok \<Rightarrow> if ok then every f xs else Inr False)"

text \<open>
  The callback of \<^verbatim>\<open>req.body.map\<close> for the element at position \<open>i\<close>. The caller is
  \<^verbatim>\<open>req.user\<close> in \<^verbatim>\<open>src/server.js\<close>, always present there, and the \<^verbatim>\<open>user\<close> of the provider's
  answer in the earlier file, where reading \<^verbatim>\<open>user.id\<close> of \<^verbatim>\<open>null\<close> throws.
\<close>

definition to_row :: "env \<Rightarrow> user option \<Rightarrow> nat \<Rightarrow> jsval \<Rightarrow> js_error + row" where
  "to_row env caller i event =
     and_then (get_prop event ''id'') (\<lambda>eid.
       and_then (get_prop event ''title'') (\<lambda>title.
         and_then (get_prop event ''date'') (\<lambda>d.
           and_then (get_prop event ''startTime'') (\<lambda>s.
             and_then (get_prop event ''endTime'') (\<lambda>t.
               (case caller of
                  None \<Rightarrow> Inl TypeError
                | Some usr \<Rightarrow>
                    Inr \<lparr> row_id = (if truthy eid then eid else Num (now env i)),
                          row_title = title,
                          row_date = d,
                          start_time = s,
                          end_time = t,
                          user_id = uid usr \<rparr>))))))"

fun supabaseData :: "env \<Rightarrow> user option \<Rightarrow> nat \<Rightarrow> jsval list \<Rightarrow> js_error + row list" where
  "supabaseData env caller i [] = Inr []"
| "supabaseData env caller i (event # events) =
     (case to_row env caller i event of
        Inl e \<Rightarrow> Inl e
      | Inr r \<Rightarrow> (case supabaseData env caller (Suc i) events of
                   Inl e \<Rightarrow> Inl e
                 | Inr rs \<Rightarrow> Inr (r # rs)))"

definition example :: "(string \<times> string) list" where
  "example = [(''title'', ''string''), (''date'', ''YYYY-MM-DD''), (''startTime'', ''HH:MM''),
     (''endTime'', ''HH:MM'')]"

text \<open>
  The body of the handler after the caller is known: lines 126 to 168 of \<^verbatim>\<open>src/server.js\<close>
  and lines 112 to 154 of the earlier file, which differ only in the expression for the
  caller.
\<close>

definition save_bookings :: "env \<Rightarrow> store \<Rightarrow> user option \<Rightarrow> jsval \<Rightarrow> response \<times> store" where
  "save_bookings env st caller b =
     (case b of
        Arr events \<Rightarrow>
          (case every valid_event events of
             Inl e \<Rightarrow> (Response 500 (Error ''Failed to save data''), st)
           | Inr isValid \<Rightarrow>
               if \<not> isValid then (Response 400 (ErrorExample ''Invalid event structure'' example), st)
               else (case supabaseData env caller 0 events of
                       Inl e \<Rightarrow> (Response 500 (Error ''Failed to save data''), st)
                     | Inr rows \<Rightarrow>
                         (case db_upsert env rows st of
                            (error, st') \<Rightarrow>
                              if error then (Response 500 (Error ''Failed to save data''), st')
                              else (Response 200 (Saved (length events)), st'))))
      | _ \<Rightarrow> (Response 400 (Error ''Data must be an array''), st))"

definition post_data :: "env \<Rightarrow> store \<Rightarrow> request \<Rightarrow> response \<times> store" where
  "post_data env st req =
     (case authenticate env req of
        Inl res \<Rightarrow> (res, st)
      | Inr usr \<Rightarrow> save_bookings env st (Some usr) (req_body req))"

text \<open>The earlier file checks the header and asks the provider inside the handler.\<close>

definition post_data_early :: "env \<Rightarrow> store \<Rightarrow> request \<Rightarrow> response \<times> store" where
  "post_data_early env st req =
     (case authorization req of
        None \<Rightarrow> (Response 401 (Error ''Unauthorized''), st)
      | Some authHeader \<Rightarrow>
          if authHeader = [] then (Response 401 (Error ''Unauthorized''), st)
          else (case getUser env (bearer_token authHeader) of
                  Raises \<Rightarrow> (Response 500 (Error ''Failed to save data''), st)
                | Reply u authError \<Rightarrow>
                    if authError then (Response 500 (Error ''Failed to save data''), st)
                    else save_bookings env st u (req_body req)))"

subsection \<open>DELETE /api/data/:id\<close>

definition delete_data :: "env \<Rightarrow> store \<Rightarrow> request \<Rightarrow> response \<times> store" where
  "delete_data env st req =
     (case authenticate env req of
        Inl res \<Rightarrow> (res, st)
      | Inr usr \<Rightarrow>
          (case db_select_single env (param_id req) st of
             DbReply booking fetchError \<Rightarrow>
               if fetchError then (Response 500 (Error ''Failed to delete event''), st)
               else (case booking of
                       None \<Rightarrow> (Response 404 (Error ''Booking not found''), st)
                     | Some owner \<Rightarrow>
                         if owner \<noteq> uid usr
                         then (Response 403 (Error ''You can only delete your own bookings''), st)
                         else (case db_delete env (param_id req) st of
                                 (error, st') \<Rightarrow>
                                   if error then (Response 500 (Error ''Failed to delete event''), st')
                                   else (Response 200 Success, st')))))"

definition delete_data_early :: "env \<Rightarrow> store \<Rightarrow> request \<Rightarrow> response \<times> store" where
  "delete_data_early env st req =
     (case db_delete env (param_id req) st of
        (error, st') \<Rightarrow>
          if error then (Response 500 (Error ''Failed to delete event''), st')
          else (Response 200 Success, st'))"

subsection \<open>A provider with two accounts, for the worked examples\<close>

definition alice :: user where
  "alice = \<lparr> uid = ''u-alice'', email = Some ''alice@example.com'' \<rparr>"

definition bob :: user where
  "bob = \<lparr> uid = ''u-bob'', email = Some ''bob@example.com'' \<rparr>"

text \<open>
  The provider knows the tokens \<^verbatim>\<open>tok-alice\<close> and \<^verbatim>\<open>tok-bob\<close>; its admin lookup throws for the
  identifier \<^verbatim>\<open>u-ghost\<close> and answers with an error for any other unknown one. The clock
  stands still during a request and the store reports no error of its own.
\<close>

definition demo_env :: env where
  "demo_env =
     \<lparr> getUser = (\<lambda>token. if token = Some ''tok-alice'' then Reply (Some alice) False
                      else if token = Some ''tok-bob'' then Reply (Some bob) False
                      else Reply None True),
       getUserById = (\<lambda>i. if i = ''u-alice'' then Reply (Some alice) False
                      else if i = ''u-bob'' then Reply (Some bob) False
                      else if i = ''u-ghost'' then Raises
                      else Reply None True),
       now = (\<lambda>i. 1700000000000),
       store_fails = (\<lambda>c. False) \<rparr>"

definition booking :: "int \<Rightarrow> string \<Rightarrow> string \<Rightarrow> string \<Rightarrow> row" where
  "booking n t d owner =
     \<lparr> row_id = Num n, row_title = Str t, row_date = Str d, start_time = Str ''09:00'',
       end_time = Str ''09:15'', user_id = owner \<rparr>"

definition req_as :: "string option \<Rightarrow> jsval \<Rightarrow> string \<Rightarrow> request" where
  "req_as header b p = \<lparr> authorization = header, req_body = b, param_id = p \<rparr>"

definition mk_event :: "(string \<times> jsval) list \<Rightarrow> string \<Rightarrow> string \<Rightarrow> string \<Rightarrow> string \<Rightarrow> jsval" where
  "mk_event extra t d s e =
     Obj (extra @ [(''title'', Str t), (''date'', Str d), (''startTime'', Str s),
       (''endTime'', Str e)])"

text \<open>The same element with no \<^verbatim>\<open>id\<close> property: what a client sends that supplies no identifier.\<close>

fun without_id :: "jsval \<Rightarrow> jsval" where
  "without_id (Obj kvs) = Obj (filter (\<lambda>kv. fst kv \<noteq> ''id'') kvs)"
| "without_id v = v"

section \<open>Properties\<close>

subsection \<open>Strings\<close>

lemma split_on_head: "\<exists>ps. split_on c s = takeWhile (\<lambda>x. x \<noteq> c) s # ps"
  by (induction s) (auto split: list.splits)

lemma first_part_takeWhile: "first_part s = takeWhile (\<lambda>x. x \<noteq> CHR ''@'') s"
proof -
  obtain ps where "split_on CHR ''@'' s = takeWhile (\<lambda>x. x \<noteq> CHR ''@'') s # ps"
    using split_on_head by blast
  then show ?thesis by (simp add: first_part_def)
qed

subsection \<open>The store\<close>

lemma upsert_row_mem: "r \<in> set (upsert_row r st)"
  by (induction st) auto

lemma upsert_row_keeps: "x \<in> set st \<Longrightarrow> row_key x \<noteq> row_key r \<Longrightarrow> x \<in> set (upsert_row r st)"
  by (induction st) auto

lemma fold_upsert_keeps:
  "x \<in> set st \<Longrightarrow> row_key x \<notin> row_key ` set bs \<Longrightarrow> x \<in> set (fold upsert_row bs st)"
  by (induction bs arbitrary: st) (auto simp: upsert_row_keeps)

lemma fold_upsert_mem:
  "distinct (map row_key batch) \<Longrightarrow> r \<in> set batch \<Longrightarrow> r \<in> set (fold upsert_row batch st)"
proof (induction batch arbitrary: st)
  case Nil
  then show ?case by simp
next
  case (Cons b bs)
  show ?case
  proof (cases "r = b")
    case True
    have "b \<in> set (upsert_row b st)" by (rule upsert_row_mem)
    moreover have "row_key b \<notin> row_key ` set bs" using Cons.prems(1) by simp
    ultimately have "b \<in> set (fold upsert_row bs (upsert_row b st))"
      by (rule fold_upsert_keeps)
    with True show ?thesis by simp
  next
    case False
    with Cons.prems have "r \<in> set bs" "distinct (map row_key bs)" by auto
    then show ?thesis using Cons.IH by simp
  qed
qed

text \<open>The number 7 and the text \<^verbatim>\<open>7\<close> are one key, in a batch as in the URL.\<close>

lemma number_and_text_one_key:
  "db_upsert env [r\<lparr>row_id := Num 7\<rparr>, r'\<lparr>row_id := Str ''7''\<rparr>] st = (True, st)"
  by (simp add: db_upsert_def row_key_def id_text_def show_int_def digits.simps digit_char_def)

text \<open>\<^verbatim>\<open>.single()\<close> never answers "no row and no error".\<close>

lemma db_select_single_never_absent: "db_select_single env p st \<noteq> DbReply None False"
  by (simp add: db_select_single_def split: list.splits)

lemma db_select_single_one:
  "\<not> store_fails env SelectSingle \<Longrightarrow> filter (\<lambda>r. id_matches p (row_id r)) st = [r] \<Longrightarrow>
   db_select_single env p st = DbReply (Some (user_id r)) False"
  by (simp add: db_select_single_def)

lemma db_select_single_none:
  "filter (\<lambda>r. id_matches p (row_id r)) st = [] \<Longrightarrow> db_select_single env p st = DbReply None True"
  by (simp add: db_select_single_def)

subsection \<open>Mapping the batch\<close>

lemma get_prop_total: "get_prop e k = Inr v \<Longrightarrow> \<exists>w. get_prop e k' = Inr w"
  by (cases e) auto

lemma to_row_fields:
  assumes "to_row env (Some usr) i e = Inr r"
  shows "user_id r = uid usr"
    and "get_prop e ''title'' = Inr (row_title r)"
    and "get_prop e ''date'' = Inr (row_date r)"
    and "get_prop e ''startTime'' = Inr (start_time r)"
    and "get_prop e ''endTime'' = Inr (end_time r)"
    and "\<exists>eid. get_prop e ''id'' = Inr eid \<and> row_id r = (if truthy eid then eid else Num (now env i))"
  using assms by (auto simp: to_row_def and_then_def split: sum.splits)

lemma valid_event_to_row:
  assumes "valid_event e = Inr ok"
  shows "\<exists>r. to_row env (Some usr) i e = Inr r"
proof -
  from assms obtain t where t: "get_prop e ''title'' = Inr t"
    by (auto simp: valid_event_def and_then_def split: sum.splits)
  obtain a b c d where "get_prop e ''id'' = Inr a" "get_prop e ''date'' = Inr b"
    "get_prop e ''startTime'' = Inr c" "get_prop e ''endTime'' = Inr d"
    using get_prop_total [OF t] by metis
  with t show ?thesis by (simp add: to_row_def and_then_def)
qed

lemma every_valid_supabaseData:
  "every valid_event events = Inr True \<Longrightarrow> \<exists>rows. supabaseData env (Some usr) i events = Inr rows"
proof (induction events arbitrary: i)
  case Nil
  then show ?case by simp
next
  case (Cons e es)
  from Cons.prems obtain ok where ok: "valid_event e = Inr ok" and rest: "every valid_event es = Inr True"
    by (auto split: sum.splits if_splits)
  obtain r where "to_row env (Some usr) i e = Inr r"
    using valid_event_to_row [OF ok] by blast
  moreover obtain rs where "supabaseData env (Some usr) (Suc i) es = Inr rs"
    using Cons.IH [OF rest] by blast
  ultimately show ?case by simp
qed

lemma supabaseData_length:
  "supabaseData env caller i events = Inr rows \<Longrightarrow> length rows = length events"
  by (induction events arbitrary: i rows) (auto split: sum.splits)

lemma supabaseData_nth:
  "supabaseData env caller i events = Inr rows \<Longrightarrow> j < length events \<Longrightarrow>
   to_row env caller (i + j) (events ! j) = Inr (rows ! j)"
proof (induction events arbitrary: i rows j)
  case Nil
  then show ?case by simp
next
  case (Cons e es)
  from Cons.prems(1) obtain r rs where r: "to_row env caller i e = Inr r"
    and rs: "supabaseData env caller (Suc i) es = Inr rs" and rows: "rows = r # rs"
    by (auto split: sum.splits)
  show ?case
  proof (cases j)
    case 0
    then show ?thesis using r rows by simp
  next
    case (Suc k)
    then have "k < length es" using Cons.prems(2) by simp
    from Cons.IH [OF rs this] show ?thesis using Suc rows by simp
  qed
qed

subsection \<open>The worked examples' requests\<close>

lemma bearer_token_alice: "bearer_token ''Bearer tok-alice'' = Some ''tok-alice''"
  by (simp add: bearer_token_def)

lemma bearer_token_bob: "bearer_token ''Bearer tok-bob'' = Some ''tok-bob''"
  by (simp add: bearer_token_def)

lemma auth_alice: "authenticate demo_env (req_as (Some ''Bearer tok-alice'') b p) = Inr alice"
  by (simp add: authenticate_def req_as_def demo_env_def bearer_token_alice)

lemma auth_bob: "authenticate demo_env (req_as (Some ''Bearer tok-bob'') b p) = Inr bob"
  by (simp add: authenticate_def req_as_def demo_env_def bearer_token_bob)

lemma row_key_booking: "row_key (booking n t d owner) = Some (show_int n)"
  by (simp add: row_key_def id_text_def booking_def)

lemma show_int_7: "show_int 7 = ''7''"
  by (simp add: show_int_def digits.simps digit_char_def)

lemma show_int_8: "show_int 8 = ''8''"
  by (simp add: show_int_def digits.simps digit_char_def)

subsection \<open>DELETE in \<^verbatim>\<open>src/server.js\<close>\<close>

text \<open>
  The branch that answers 404 is dead: it needs a reply with neither a row nor an error,
  and \<^verbatim>\<open>.single()\<close> gives none.
\<close>

lemma delete_data_never_404: "fst (delete_data env st req) \<noteq> Response 404 b"
proof (cases "authenticate env req")
  case (Inl res)
  then show ?thesis
    by (auto simp: delete_data_def authenticate_def
        split: option.splits if_splits provider_reply.splits)
next
  case (Inr usr)
  then show ?thesis
    using db_select_single_never_absent [of env "param_id req" st]
    by (auto simp: delete_data_def split: db_reply.splits option.splits prod.splits)
qed

lemma delete_data_no_match:
  assumes "authenticate env req = Inr usr"
    and "filter (\<lambda>r. id_matches (param_id req) (row_id r)) st = []"
  shows "delete_data env st req = (Response 500 (Error ''Failed to delete event''), st)"
  using assms by (simp add: delete_data_def db_select_single_none)

text \<open>
  C2. For a booking that exists (the one row \<open>r\<close> the identifier of the URL selects), with
  the store answering its queries: an authenticated caller who is not the owner gets 403 and
  the store stays as it was; the owner gets the success answer, and the store afterwards is
  the old one without the selected row.
\<close>

theorem delete_checks_owner:
  assumes auth: "authenticate env req = Inr usr"
    and ok: "\<not> store_fails env SelectSingle"
    and one: "filter (\<lambda>x. id_matches (param_id req) (row_id x)) st = [r]"
  shows "(user_id r \<noteq> uid usr \<longrightarrow>
            delete_data env st req =
              (Response 403 (Error ''You can only delete your own bookings''), st))
       \<and> (user_id r = uid usr \<and> \<not> store_fails env Delete \<longrightarrow>
            delete_data env st req =
              (Response 200 Success, filter (\<lambda>x. \<not> id_matches (param_id req) (row_id x)) st)
            \<and> r \<notin> set (snd (delete_data env st req)))"
proof -
  have sel: "db_select_single env (param_id req) st = DbReply (Some (user_id r)) False"
    using ok one by (rule db_select_single_one)
  have "r \<in> set (filter (\<lambda>x. id_matches (param_id req) (row_id x)) st)"
    using one by simp
  then have m: "id_matches (param_id req) (row_id r)" by simp
  show ?thesis
    using auth sel m by (simp add: delete_data_def db_delete_def)
qed

theorem delete_checks_owner_witness:
  "authenticate demo_env (req_as (Some ''Bearer tok-bob'') Undefined ''7'') = Inr bob
   \<and> authenticate demo_env (req_as (Some ''Bearer tok-alice'') Undefined ''7'') = Inr alice
   \<and> user_id (booking 7 ''Standup'' ''2024-01-05'' ''u-alice'') \<noteq> uid bob
   \<and> delete_data demo_env
        [booking 7 ''Standup'' ''2024-01-05'' ''u-alice'', booking 8 ''Review'' ''2024-01-06'' ''u-bob'']
        (req_as (Some ''Bearer tok-bob'') Undefined ''7'') =
      (Response 403 (Error ''You can only delete your own bookings''),
        [booking 7 ''Standup'' ''2024-01-05'' ''u-alice'', booking 8 ''Review'' ''2024-01-06'' ''u-bob''])
   \<and> delete_data demo_env
        [booking 7 ''Standup'' ''2024-01-05'' ''u-alice'', booking 8 ''Review'' ''2024-01-06'' ''u-bob'']
        (req_as (Some ''Bearer tok-alice'') Undefined ''7'') =
      (Response 200 Success, [booking 8 ''Review'' ''2024-01-06'' ''u-bob''])"
proof -
  let ?r7 = "booking 7 ''Standup'' ''2024-01-05'' ''u-alice''"
  let ?r8 = "booking 8 ''Review'' ''2024-01-06'' ''u-bob''"
  let ?st = "[?r7, ?r8]"
  have nf: "\<not> store_fails demo_env SelectSingle" "\<not> store_fails demo_env Delete"
    by (simp_all add: demo_env_def)
  have one: "filter (\<lambda>x. id_matches ''7'' (row_id x)) ?st = [?r7]"
    by (simp add: booking_def id_matches_def id_text_def show_int_7 show_int_8)
  have p: "param_id (req_as h b ''7'') = ''7''" for h b
    by (simp add: req_as_def)
  have own: "user_id ?r7 = uid alice" "user_id ?r7 \<noteq> uid bob"
    by (simp_all add: booking_def alice_def bob_def)
  have rest: "filter (\<lambda>x. \<not> id_matches ''7'' (row_id x)) ?st = [?r8]"
    by (simp add: booking_def id_matches_def id_text_def show_int_7 show_int_8)
  from delete_checks_owner [OF auth_bob nf(1), of Undefined "''7''" ?st ?r7]
       delete_checks_owner [OF auth_alice nf(1), of Undefined "''7''" ?st ?r7]
  show ?thesis
    using one p own rest nf auth_bob auth_alice by simp
qed

text \<open>
  C3. An authenticated DELETE for an identifier that selects no row: the claim says 404.
  Here alice asks for 999 while the store holds only booking 7; \<^verbatim>\<open>.single()\<close> reports the
  empty selection as an error, the handler throws it, and the answer is 500. The store is
  unchanged.
\<close>

theorem delete_unknown_id_is_500:
  "delete_data demo_env [booking 7 ''Standup'' ''2024-01-05'' ''u-alice'']
     (req_as (Some ''Bearer tok-alice'') Undefined ''999'') =
   (Response 500 (Error ''Failed to delete event''), [booking 7 ''Standup'' ''2024-01-05'' ''u-alice''])"
proof -
  have "filter (\<lambda>r. id_matches (param_id (req_as (Some ''Bearer tok-alice'') Undefined ''999'')) (row_id r))
          [booking 7 ''Standup'' ''2024-01-05'' ''u-alice''] = []"
    by (simp add: req_as_def booking_def id_matches_def id_text_def show_int_7)
  with auth_alice show ?thesis by (rule delete_data_no_match)
qed

lemma req_as_sel [simp]:
  "authorization (req_as h b p) = h" "req_body (req_as h b p) = b" "param_id (req_as h b p) = p"
  by (simp_all add: req_as_def)

subsection \<open>GET /api/data\<close>

lemma set_uniq_fold:
  "set (fold (\<lambda>x seen. if x \<in> set seen then seen else seen @ [x]) xs acc) = set xs \<union> set acc"
  by (induction xs arbitrary: acc) auto

lemma set_uniq: "set (uniq xs) = set xs"
  by (simp add: uniq_def set_uniq_fold)

lemma fetch_email_other: "owner \<noteq> u \<Longrightarrow> fetch_email env owner m u = m u"
  by (simp add: fetch_email_def assign_def split: provider_reply.splits option.splits)

lemma fetch_email_self:
  "m u = None \<or> m u = fetch_email env u Map.empty u \<Longrightarrow>
   fetch_email env u m u = fetch_email env u Map.empty u"
  by (auto simp: fetch_email_def assign_def split: provider_reply.splits option.splits)

text \<open>The own properties after the loop: each owner's entry is the one its lookup alone makes.\<close>

lemma fold_fetch_email:
  "fold (fetch_email env) us Map.empty u =
     (if u \<in> set us then fetch_email env u Map.empty u else None)"
proof (induction us rule: rev_induct)
  case Nil
  then show ?case by simp
next
  case (snoc x xs)
  show ?case
  proof (cases "x = u")
    case True
    have "fold (fetch_email env) xs Map.empty u = None
        \<or> fold (fetch_email env) xs Map.empty u = fetch_email env u Map.empty u"
      by (cases "u \<in> set xs") (simp_all only: snoc.IH if_True if_False simp_thms)
    then have "fetch_email env u (fold (fetch_email env) xs Map.empty) u = fetch_email env u Map.empty u"
      by (rule fetch_email_self)
    then show ?thesis using True by simp
  next
    case False
    then have "fetch_email env x (fold (fetch_email env) xs Map.empty) u = fold (fetch_email env) xs Map.empty u"
      by (rule fetch_email_other)
    then show ?thesis using False snoc.IH by simp
  qed
qed

lemma map_js_length: "map_js f xs = Inr ys \<Longrightarrow> length ys = length xs"
  by (induction xs arbitrary: ys) (auto split: sum.splits)

lemma map_js_map:
  "map_js f xs = Inr ys \<Longrightarrow> (\<And>x y. f x = Inr y \<Longrightarrow> g y = h x) \<Longrightarrow> map g ys = map h xs"
  by (induction xs arbitrary: ys) (auto split: sum.splits)

lemma map_js_total:
  "(\<And>x. x \<in> set xs \<Longrightarrow> \<exists>y. f x = Inr y) \<Longrightarrow> \<exists>ys. map_js f xs = Inr ys"
proof (induction xs)
  case Nil
  then show ?case by simp
next
  case (Cons x xs)
  obtain y where "f x = Inr y" using Cons.prems [of x] by auto
  moreover obtain ys where "map_js f xs = Inr ys" using Cons.IH Cons.prems by auto
  ultimately show ?case by simp
qed

lemma map_js_mem: "map_js f xs = Inr ys \<Longrightarrow> y \<in> set ys \<Longrightarrow> \<exists>x \<in> set xs. f x = Inr y"
  by (induction xs arbitrary: ys) (auto split: sum.splits)

lemma map_js_mem_src: "map_js f xs = Inr ys \<Longrightarrow> x \<in> set xs \<Longrightarrow> \<exists>y \<in> set ys. f x = Inr y"
  by (induction xs arbitrary: ys) (auto split: sum.splits)

lemma transform_fields:
  assumes "transform m r = Inr it"
  shows "item_id it = row_id r" and "item_title it = row_title r" and "item_date it = row_date r"
    and "startTime it = start_time r" and "endTime it = end_time r" and "userId it = user_id r"
  using assms by (auto simp: transform_def split: looked_up.splits)

lemma transform_ok: "look_up m (user_id r) \<noteq> Inherited \<Longrightarrow> \<exists>it. transform m r = Inr it"
  by (cases "look_up m (user_id r)") (simp_all add: transform_def)

lemma look_up_ordinary: "key \<notin> set object_prototype_members \<Longrightarrow> look_up obj key \<noteq> Inherited"
  by (simp add: look_up_def split: option.splits)

lemma get_data_answer:
  assumes "\<not> store_fails env SelectAll"
  shows "get_data env st req =
     (case map_js (transform (\<lambda>u. if u \<in> user_id ` set st then fetch_email env u Map.empty u else None))
             (sort_key (\<lambda>r. order_key (row_date r)) st) of
        Inl e \<Rightarrow> Response 500 (Error ''Failed to load data'')
      | Inr items \<Rightarrow> Response 200 (Listing items))"
proof -
  let ?rows = "sort_key (\<lambda>r. order_key (row_date r)) st"
  have "fold (fetch_email env) (uniq (map user_id ?rows)) Map.empty =
      (\<lambda>u. if u \<in> user_id ` set st then fetch_email env u Map.empty u else None)"
    by (rule ext) (simp add: fold_fetch_email set_uniq)
  then show ?thesis
    using assms by (simp add: get_data_def db_select_all_def Let_def)
qed

lemma get_data_200:
  assumes "get_data env st req = Response 200 (Listing items)"
  shows "map_js (transform (\<lambda>u. if u \<in> user_id ` set st then fetch_email env u Map.empty u else None))
             (sort_key (\<lambda>r. order_key (row_date r)) st) = Inr items"
proof -
  have nf: "\<not> store_fails env SelectAll"
    using assms by (auto simp: get_data_def db_select_all_def split: if_splits)
  show ?thesis
    using assms unfolding get_data_answer [OF nf] by (auto split: sum.splits)
qed

lemma get_data_200_or_500:
  "(\<exists>items. get_data env st req = Response 200 (Listing items))
   \<or> get_data env st req = Response 500 (Error ''Failed to load data'')"
  by (auto simp: get_data_def Let_def split: db_reply.splits option.splits sum.splits)

text \<open>
  An owner identifier that names a member of \<^verbatim>\<open>Object.prototype\<close> and gets no entry of its
  own makes the whole listing fail.
\<close>

lemma owner_named_constructor_is_500:
  "get_data demo_env [booking 7 ''Standup'' ''2024-01-05'' ''constructor''] req =
     Response 500 (Error ''Failed to load data'')"
  by (simp add: get_data_def db_select_all_def demo_env_def booking_def uniq_def
      fetch_email_def transform_def look_up_def object_prototype_members_def)

text \<open>
  C7. The handler needs no authentication: it never reads the request, so its answer is
  the one it gives with no Authorization header, and that answer is either 200 with a
  listing or the 500 of a failed load, never a refusal. Every listing it returns has one
  item per stored row, in ascending order of the date column: of two items whose dates are
  texts, the earlier in the list has the smaller date. It does return a listing whenever
  the store answers the query and no owner identifier names a member of
  \<^verbatim>\<open>Object.prototype\<close>.
\<close>

theorem get_data_public_and_sorted:
  "get_data env st req = get_data env st (req\<lparr>authorization := None\<rparr>)
   \<and> ((\<exists>listed. get_data env st req = Response 200 (Listing listed))
        \<or> get_data env st req = Response 500 (Error ''Failed to load data''))
   \<and> (get_data env st req = Response 200 (Listing items) \<longrightarrow>
        length items = length st
        \<and> sorted (map (\<lambda>it. order_key (item_date it)) items)
        \<and> (\<forall>i j a b. i < j \<and> j < length items \<and> item_date (items ! i) = Str a
               \<and> item_date (items ! j) = Str b \<longrightarrow> a \<le> b))
   \<and> (\<not> store_fails env SelectAll \<and> (\<forall>r \<in> set st. user_id r \<notin> set object_prototype_members) \<longrightarrow>
        (\<exists>listed. get_data env st req = Response 200 (Listing listed)))"
proof (intro conjI impI)
  show "get_data env st req = get_data env st (req\<lparr>authorization := None\<rparr>)"
    by (simp add: get_data_def)
  show "(\<exists>listed. get_data env st req = Response 200 (Listing listed))
        \<or> get_data env st req = Response 500 (Error ''Failed to load data'')"
    by (rule get_data_200_or_500)
next
  let ?m = "\<lambda>u. if u \<in> user_id ` set st then fetch_email env u Map.empty u else None"
  let ?rows = "sort_key (\<lambda>r. order_key (row_date r)) st"
  assume "get_data env st req = Response 200 (Listing items)"
  then have items: "map_js (transform ?m) ?rows = Inr items"
    by (rule get_data_200)
  then show "length items = length st"
    using map_js_length by fastforce
  have "map (\<lambda>it. order_key (item_date it)) items = map (\<lambda>r. order_key (row_date r)) ?rows"
    using items by (rule map_js_map) (simp add: transform_fields)
  then show s: "sorted (map (\<lambda>it. order_key (item_date it)) items)"
    by (simp only: sorted_sort_key)
  show "\<forall>i j a b. i < j \<and> j < length items \<and> item_date (items ! i) = Str a
               \<and> item_date (items ! j) = Str b \<longrightarrow> a \<le> b"
  proof (intro allI impI)
    fix i j a b
    assume h: "i < j \<and> j < length items \<and> item_date (items ! i) = Str a
               \<and> item_date (items ! j) = Str b"
    then have "map (\<lambda>it. order_key (item_date it)) items ! i
        \<le> map (\<lambda>it. order_key (item_date it)) items ! j"
      using s by (intro sorted_nth_mono) simp_all
    then show "a \<le> b"
      using h by (simp add: order_key_def)
  qed
next
  let ?m = "\<lambda>u. if u \<in> user_id ` set st then fetch_email env u Map.empty u else None"
  let ?rows = "sort_key (\<lambda>r. order_key (row_date r)) st"
  assume a: "\<not> store_fails env SelectAll \<and> (\<forall>r \<in> set st. user_id r \<notin> set object_prototype_members)"
  have "\<exists>it. transform ?m r = Inr it" if "r \<in> set ?rows" for r
  proof -
    have "user_id r \<notin> set object_prototype_members" using a that by simp
    then have "look_up ?m (user_id r) \<noteq> Inherited" by (rule look_up_ordinary)
    then show ?thesis by (rule transform_ok)
  qed
  then obtain listed where "map_js (transform ?m) ?rows = Inr listed"
    using map_js_total [of ?rows "transform ?m"] by blast
  then show "\<exists>listed. get_data env st req = Response 200 (Listing listed)"
    using a by (simp add: get_data_answer)
qed

theorem get_data_public_and_sorted_witness:
  "\<not> store_fails demo_env SelectAll
   \<and> user_id (booking 8 ''Review'' ''2024-01-06'' ''u-bob'') \<notin> set object_prototype_members
   \<and> user_id (booking 7 ''Standup'' ''2024-01-05'' ''u-alice'') \<notin> set object_prototype_members
   \<and> get_data demo_env
        [booking 8 ''Review'' ''2024-01-06'' ''u-bob'', booking 7 ''Standup'' ''2024-01-05'' ''u-alice'']
        (req_as None Undefined []) =
      Response 200 (Listing
        [\<lparr> item_id = Num 7, item_title = Str ''Standup'', item_date = Str ''2024-01-05'',
           startTime = Str ''09:00'', endTime = Str ''09:15'', userId = ''u-alice'',
           userEmail = ''alice@example.com'', userName = ''alice'' \<rparr>,
         \<lparr> item_id = Num 8, item_title = Str ''Review'', item_date = Str ''2024-01-06'',
           startTime = Str ''09:00'', endTime = Str ''09:15'', userId = ''u-bob'',
           userEmail = ''bob@example.com'', userName = ''bob'' \<rparr>])
   \<and> get_data demo_env
        [booking 8 ''Review'' ''2024-01-06'' ''u-bob'', booking 7 ''Standup'' ''2024-01-05'' ''u-alice'']
        (req_as (Some ''Bearer tok-bob'') Undefined []) =
      get_data demo_env
        [booking 8 ''Review'' ''2024-01-06'' ''u-bob'', booking 7 ''Standup'' ''2024-01-05'' ''u-alice'']
        (req_as None Undefined [])
   \<and> sorted (map (\<lambda>it. order_key (item_date it))
        [\<lparr> item_id = Num 7, item_title = Str ''Standup'', item_date = Str ''2024-01-05'',
           startTime = Str ''09:00'', endTime = Str ''09:15'', userId = ''u-alice'',
           userEmail = ''alice@example.com'', userName = ''alice'' \<rparr>,
         \<lparr> item_id = Num 8, item_title = Str ''Review'', item_date = Str ''2024-01-06'',
           startTime = Str ''09:00'', endTime = Str ''09:15'', userId = ''u-bob'',
           userEmail = ''bob@example.com'', userName = ''bob'' \<rparr>])"
proof -
  let ?st = "[booking 8 ''Review'' ''2024-01-06'' ''u-bob'', booking 7 ''Standup'' ''2024-01-05'' ''u-alice'']"
  let ?items = "[\<lparr> item_id = Num 7, item_title = Str ''Standup'', item_date = Str ''2024-01-05'',
           startTime = Str ''09:00'', endTime = Str ''09:15'', userId = ''u-alice'',
           userEmail = ''alice@example.com'', userName = ''alice'' \<rparr>,
         \<lparr> item_id = Num 8, item_title = Str ''Review'', item_date = Str ''2024-01-06'',
           startTime = Str ''09:00'', endTime = Str ''09:15'', userId = ''u-bob'',
           userEmail = ''bob@example.com'', userName = ''bob'' \<rparr>]"
  have nf: "\<not> store_fails demo_env SelectAll"
    by (simp add: demo_env_def)
  have owners: "user_id (booking 8 ''Review'' ''2024-01-06'' ''u-bob'') \<notin> set object_prototype_members"
    "user_id (booking 7 ''Standup'' ''2024-01-05'' ''u-alice'') \<notin> set object_prototype_members"
    by (simp_all add: booking_def object_prototype_members_def)
  have rows: "sort_key (\<lambda>r. order_key (row_date r)) ?st
    = [booking 7 ''Standup'' ''2024-01-05'' ''u-alice'', booking 8 ''Review'' ''2024-01-06'' ''u-bob'']"
    by (simp add: booking_def order_key_def less_eq_char_def)
  have get: "get_data demo_env ?st (req_as None Undefined []) = Response 200 (Listing ?items)"
    unfolding get_data_answer [OF nf] rows
    by (simp add: transform_def look_up_def assign_def booking_def fetch_email_def demo_env_def
        alice_def bob_def first_part_takeWhile)
  have same: "get_data demo_env ?st (req_as (Some ''Bearer tok-bob'') Undefined []) =
      get_data demo_env ?st (req_as None Undefined [])"
    using get_data_public_and_sorted [of demo_env ?st "req_as (Some ''Bearer tok-bob'') Undefined []"]
    by (simp add: req_as_def)
  have "sorted (map (\<lambda>it. order_key (item_date it)) ?items)"
    using get_data_public_and_sorted [of demo_env ?st "req_as None Undefined []" ?items] get
    by blast
  with nf owners get same show ?thesis
    by blast
qed

text \<open>
  What a listing shows for an owner, case by case of the admin lookup's answer.
\<close>

lemma listing_names:
  assumes res: "get_data env st req = Response 200 (Listing items)"
    and mem: "it \<in> set items"
  shows "(case getUserById env (userId it) of
            Raises \<Rightarrow> userEmail it = ''Unknown User'' \<and> userName it = ''Unknown User''
          | Reply u err \<Rightarrow>
              (case u of
                 None \<Rightarrow> userEmail it = ''Unknown User'' \<and> userName it = ''Unknown''
               | Some usr \<Rightarrow>
                   if err then userEmail it = ''Unknown User'' \<and> userName it = ''Unknown''
                   else (case email usr of
                           None \<Rightarrow> userEmail it = ''Unknown User'' \<and> userName it = ''Unknown''
                         | Some e \<Rightarrow>
                             if e = [] then userEmail it = ''Unknown User'' \<and> userName it = ''Unknown''
                             else userEmail it = e
                                \<and> userName it = takeWhile (\<lambda>c. c \<noteq> CHR ''@'') e)))"
proof -
  let ?m = "\<lambda>u. if u \<in> user_id ` set st then fetch_email env u Map.empty u else None"
  let ?rows = "sort_key (\<lambda>r. order_key (row_date r)) st"
  have "map_js (transform ?m) ?rows = Inr items"
    using res by (rule get_data_200)
  then obtain r where r: "r \<in> set ?rows" and it: "transform ?m r = Inr it"
    using mem map_js_mem by fastforce
  have m: "?m (user_id r) = fetch_email env (user_id r) Map.empty (user_id r)"
    using r by simp
  have u: "userId it = user_id r"
    using it by (rule transform_fields)
  have p: "''__proto__'' \<in> set object_prototype_members"
    by (simp add: object_prototype_members_def)
  show ?thesis
    unfolding u using it p
    by (auto simp: transform_def look_up_def m fetch_email_def assign_def first_part_takeWhile
        split: provider_reply.splits option.splits if_splits)
qed

text \<open>
  C6. The claim says that \<^verbatim>\<open>userName\<close> is "Unknown" whenever the email is not resolved, a
  raised error of the admin lookup included. For a booking whose owner's lookup throws, the
  \<^verbatim>\<open>catch\<close> branch stores the sentinel as if it were an email, and the listing derives the
  name from it: \<^verbatim>\<open>userName\<close> is "Unknown User". (When the lookup answers with an error
  instead, the name is "Unknown": \<open>listing_names\<close>.)
\<close>

theorem raised_lookup_names_unknown_user:
  "get_data demo_env [booking 7 ''Standup'' ''2024-01-05'' ''u-ghost''] (req_as None Undefined []) =
   Response 200 (Listing
     [\<lparr> item_id = Num 7, item_title = Str ''Standup'', item_date = Str ''2024-01-05'',
        startTime = Str ''09:00'', endTime = Str ''09:15'', userId = ''u-ghost'',
        userEmail = ''Unknown User'', userName = ''Unknown User'' \<rparr>])"
  by (simp add: get_data_def db_select_all_def demo_env_def booking_def uniq_def
      fetch_email_def assign_def look_up_def transform_def first_part_def)

subsection \<open>Requests without a valid token\<close>

lemma authenticate_401:
  assumes "authorization req = None \<or> authorization req = Some []
         \<or> (\<exists>h u e. authorization req = Some h \<and> getUser env (bearer_token h) = Reply u e
               \<and> (u = None \<or> e))"
  shows "\<exists>msg. authenticate env req = Inl (Response 401 (Error msg))"
  using assms by (auto simp: authenticate_def split: option.splits)

lemma rejected_by_middleware:
  assumes "authenticate env req = Inl res"
  shows "post_data env st req = (res, st)" and "delete_data env st req = (res, st)"
  using assms by (simp_all add: post_data_def delete_data_def)

text \<open>
  C5. In \<^verbatim>\<open>src/server.js\<close> both route handlers run behind \<^verbatim>\<open>authenticate\<close>, which answers
  401 and touches nothing for a request that reaches it (\<open>authenticate_401\<close>,
  \<open>rejected_by_middleware\<close>). The DELETE route of the
  earlier file has no such check: a request with no Authorization header at all deletes
  booking 7 and is told of its success. Its POST route throws the provider's error for a
  token that resolves to nobody and answers 500 in place of 401.
\<close>

theorem early_delete_needs_no_token:
  "delete_data_early demo_env [booking 7 ''Standup'' ''2024-01-05'' ''u-alice'']
     (req_as None Undefined ''7'') = (Response 200 Success, [])"
  by (simp add: delete_data_early_def db_delete_def demo_env_def req_as_def booking_def
      id_matches_def id_text_def show_int_7)

lemma early_post_bad_token_is_500:
  "post_data_early demo_env st (req_as (Some ''Bearer nobody'') b p) =
     (Response 500 (Error ''Failed to save data''), st)"
  by (simp add: post_data_early_def demo_env_def bearer_token_def)

subsection \<open>POST /api/data: what is rejected\<close>

lemma post_not_array:
  assumes "authenticate env req = Inr usr" and "\<And>events. req_body req \<noteq> Arr events"
  shows "post_data env st req = (Response 400 (Error ''Data must be an array''), st)"
  using assms by (cases "req_body req") (auto simp: post_data_def save_bookings_def)

lemma post_invalid:
  assumes "authenticate env req = Inr usr" and "req_body req = Arr events"
    and "every valid_event events = Inr False"
  shows "post_data env st req = (Response 400 (ErrorExample ''Invalid event structure'' example), st)"
  using assms by (simp add: post_data_def save_bookings_def)

lemma every_bad_element:
  "e \<in> set events \<Longrightarrow> f e \<noteq> Inr True \<Longrightarrow> every f events \<noteq> Inr True"
  by (induction events) (auto split: sum.splits)

lemma bad_element_nothing_written:
  assumes "req_body req = Arr events" and "e \<in> set events" and "valid_event e \<noteq> Inr True"
  shows "snd (post_data env st req) = st"
    and "\<exists>b. fst (post_data env st req) = Response 400 b \<or> fst (post_data env st req) = Response 401 b
           \<or> fst (post_data env st req) = Response 500 b"
proof -
  have bad: "every valid_event events \<noteq> Inr True"
    using assms(2,3) by (rule every_bad_element)
  show "snd (post_data env st req) = st"
    using bad assms(1)
    by (cases "every valid_event events")
       (auto simp: post_data_def save_bookings_def split: sum.splits)
  show "\<exists>b. fst (post_data env st req) = Response 400 b \<or> fst (post_data env st req) = Response 401 b
           \<or> fst (post_data env st req) = Response 500 b"
    using bad assms(1)
    by (cases "every valid_event events")
       (auto simp: post_data_def save_bookings_def authenticate_def
         split: sum.splits option.splits provider_reply.splits)
qed

lemma falsy_title_invalid:
  "get_prop e ''title'' = Inr t \<Longrightarrow> \<not> truthy t \<Longrightarrow> valid_event e = Inr False"
  by (simp add: valid_event_def and_then_def)

lemma bad_date_invalid:
  "get_prop e ''date'' = Inr (Str d) \<Longrightarrow> \<not> matches date_pattern d \<Longrightarrow> valid_event e \<noteq> Inr True"
  by (auto simp: valid_event_def and_then_def re_test_def split: sum.splits)

lemma bad_start_invalid:
  "get_prop e ''startTime'' = Inr (Str s) \<Longrightarrow> \<not> matches time_pattern s \<Longrightarrow>
   valid_event e \<noteq> Inr True"
  by (auto simp: valid_event_def and_then_def re_test_def split: sum.splits)

lemma bad_end_invalid:
  "get_prop e ''endTime'' = Inr (Str t) \<Longrightarrow> \<not> matches time_pattern t \<Longrightarrow>
   valid_event e \<noteq> Inr True"
  by (auto simp: valid_event_def and_then_def re_test_def split: sum.splits)

text \<open>An object whose date cannot be converted to text throws inside the check as well.\<close>

lemma unprintable_date_is_500:
  "post_data demo_env st
     (req_as (Some ''Bearer tok-alice'')
        (Arr [Obj [(''title'', Str ''Standup''), (''date'', Obj [(''toString'', Num 1)]),
                   (''startTime'', Str ''09:00''), (''endTime'', Str ''09:15'')]]) p) =
     (Response 500 (Error ''Failed to save data''), st)"
  by (simp add: post_data_def auth_alice save_bookings_def valid_event_def and_then_def
      re_test_def)

text \<open>
  C4. A batch with an element that fails the check is never written
  (\<open>bad_element_nothing_written\<close>), and the answer is 400 when the check says no
  (\<open>post_not_array\<close>, \<open>post_invalid\<close>). The claim says 400 for every such batch; for the body
  \<^verbatim>\<open>[null]\<close>, whose element has no title, reading \<^verbatim>\<open>event.title\<close> throws inside \<^verbatim>\<open>every\<close> and
  the handler's \<^verbatim>\<open>catch\<close> answers 500.
\<close>

theorem null_element_is_500:
  "post_data demo_env st (req_as (Some ''Bearer tok-alice'') (Arr [Null]) p) =
     (Response 500 (Error ''Failed to save data''), st)"
  by (simp add: post_data_def auth_alice save_bookings_def valid_event_def and_then_def)

subsection \<open>POST /api/data: what is accepted\<close>

lemma to_row_caller: "to_row env caller i e = Inr r \<Longrightarrow> \<exists>usr. caller = Some usr"
  by (cases caller) (auto simp: to_row_def and_then_def split: sum.splits)

lemma save_bookings_200:
  assumes "save_bookings env st caller (Arr events) = (Response 200 b, st')"
  shows "\<exists>rows. supabaseData env caller 0 events = Inr rows \<and> distinct (map row_key rows)
           \<and> st' = fold upsert_row rows st"
  using assms
  by (auto simp: save_bookings_def db_upsert_def split: sum.splits if_splits)

lemma authenticate_Inl_not_200: "authenticate env req = Inl res \<Longrightarrow> res \<noteq> Response 200 b"
  by (auto simp: authenticate_def split: option.splits if_splits provider_reply.splits)

lemma post_data_200:
  assumes "post_data env st req = (Response 200 b, st')"
  shows "\<exists>usr. save_bookings env st (Some usr) (req_body req) = (Response 200 b, st')"
proof (cases "authenticate env req")
  case (Inl res)
  with assms have "res = Response 200 b" by (simp add: post_data_def)
  with authenticate_Inl_not_200 [OF Inl, of b] show ?thesis by simp
next
  case (Inr usr)
  with assms show ?thesis by (auto simp: post_data_def)
qed

lemma post_data_early_200:
  assumes "post_data_early env st req = (Response 200 b, st')"
  shows "\<exists>caller. save_bookings env st caller (req_body req) = (Response 200 b, st')"
  using assms
  by (auto simp: post_data_early_def split: option.splits if_splits provider_reply.splits)

lemma map_of_without_id:
  "k \<noteq> ''id'' \<Longrightarrow> map_of (filter (\<lambda>kv. fst kv \<noteq> ''id'') kvs) k = map_of kvs k"
  by (induction kvs) auto

lemma map_of_without_id_id: "map_of (filter (\<lambda>kv. fst kv \<noteq> ''id'') kvs) ''id'' = None"
  by (induction kvs) auto

lemma get_prop_without_id:
  "k \<noteq> ''id'' \<Longrightarrow> get_prop (without_id e) k = get_prop e k"
  by (cases e) (simp_all add: map_of_without_id)

lemma get_prop_without_id_id:
  "get_prop e ''id'' = Inr eid \<Longrightarrow> get_prop (without_id e) ''id'' = Inr Undefined"
  by (cases e) (simp_all add: map_of_without_id_id)

lemma valid_event_without_id: "valid_event (without_id e) = valid_event e"
proof -
  have "get_prop (without_id e) ''title'' = get_prop e ''title''"
    "get_prop (without_id e) ''date'' = get_prop e ''date''"
    "get_prop (without_id e) ''startTime'' = get_prop e ''startTime''"
    "get_prop (without_id e) ''endTime'' = get_prop e ''endTime''"
    by (simp_all add: get_prop_without_id)
  then show ?thesis
    unfolding valid_event_def by (simp only:)
qed

lemma to_row_without_id:
  assumes "get_prop e ''id'' = Inr eid" and "\<not> truthy eid"
  shows "to_row env caller i (without_id e) = to_row env caller i e"
  using assms get_prop_without_id_id [OF assms(1)]
  by (simp add: to_row_def get_prop_without_id and_then_def)

lemma every_cong_nth:
  "length xs = length ys \<Longrightarrow> (\<And>j. j < length xs \<Longrightarrow> f (xs ! j) = f (ys ! j)) \<Longrightarrow>
   every f xs = every f ys"
proof (induction xs arbitrary: ys)
  case Nil
  then show ?case by simp
next
  case (Cons x xs)
  then obtain y ys' where ys: "ys = y # ys'" by (cases ys) auto
  have "f x = f y" using Cons.prems(2) [of 0] ys by simp
  moreover have "every f xs = every f ys'"
  proof (rule Cons.IH)
    show "length xs = length ys'" using Cons.prems(1) ys by simp
    show "f (xs ! j) = f (ys' ! j)" if "j < length xs" for j
      using Cons.prems(2) [of "Suc j"] that ys by simp
  qed
  ultimately show ?case using ys by (simp split: sum.splits)
qed

lemma supabaseData_cong_nth:
  "length xs = length ys \<Longrightarrow>
   (\<And>j. j < length xs \<Longrightarrow> to_row env caller (i + j) (xs ! j) = to_row env caller (i + j) (ys ! j)) \<Longrightarrow>
   supabaseData env caller i xs = supabaseData env caller i ys"
proof (induction xs arbitrary: ys i)
  case Nil
  then show ?case by simp
next
  case (Cons x xs)
  then obtain y ys' where ys: "ys = y # ys'" by (cases ys) auto
  have "to_row env caller i x = to_row env caller i y" using Cons.prems(2) [of 0] ys by simp
  moreover have "supabaseData env caller (Suc i) xs = supabaseData env caller (Suc i) ys'"
  proof (rule Cons.IH)
    show "length xs = length ys'" using Cons.prems(1) ys by simp
    show "to_row env caller (Suc i + j) (xs ! j) = to_row env caller (Suc i + j) (ys' ! j)"
      if "j < length xs" for j
      using Cons.prems(2) [of "Suc j"] that ys by simp
  qed
  ultimately show ?case using ys by (simp split: sum.splits)
qed

lemma save_bookings_without_id:
  assumes i: "i < length events"
    and eid: "get_prop (events ! i) ''id'' = Inr eid" "\<not> truthy eid"
  shows "save_bookings env st caller (Arr (events[i := without_id (events ! i)])) =
         save_bookings env st caller (Arr events)"
proof -
  let ?events' = "events[i := without_id (events ! i)]"
  have v: "every valid_event ?events' = every valid_event events"
    using i by (intro every_cong_nth) (auto simp: nth_list_update valid_event_without_id)
  have r: "supabaseData env caller 0 ?events' = supabaseData env caller 0 events"
    using i by (intro supabaseData_cong_nth) (auto simp: nth_list_update to_row_without_id [OF eid])
  show ?thesis
    unfolding save_bookings_def by (simp only: jsval.case v r length_list_update)
qed

subsection \<open>The two DELETE handlers\<close>




subsection \<open>Identifiers\<close>

text \<open>
  C9. In both POST handlers an element whose \<^verbatim>\<open>id\<close> is falsy (0, the empty string, \<^verbatim>\<open>null\<close>,
  \<^verbatim>\<open>false\<close>) is stored, when the request succeeds, under the reading of the clock taken for
  that element and not under the supplied value; and the request has the same outcome as
  the one in which that element carries no \<^verbatim>\<open>id\<close> at all.
\<close>

theorem falsy_id_replaced_by_clock:
  assumes res: "post_data env st req = (Response 200 b, st')
              \<or> post_data_early env st req = (Response 200 b, st')"
    and body: "req_body req = Arr events"
    and i: "i < length events"
    and eid: "get_prop (events ! i) ''id'' = Inr eid" "\<not> truthy eid"
  shows "(\<exists>r \<in> set st'. row_id r = Num (now env i)
            \<and> get_prop (events ! i) ''title'' = Inr (row_title r)
            \<and> get_prop (events ! i) ''date'' = Inr (row_date r)
            \<and> get_prop (events ! i) ''startTime'' = Inr (start_time r)
            \<and> get_prop (events ! i) ''endTime'' = Inr (end_time r))
       \<and> post_data env st (req\<lparr>req_body := Arr (events[i := without_id (events ! i)])\<rparr>) =
           post_data env st req
       \<and> post_data_early env st (req\<lparr>req_body := Arr (events[i := without_id (events ! i)])\<rparr>) =
           post_data_early env st req"
proof -
  from res obtain caller where "save_bookings env st caller (req_body req) = (Response 200 b, st')"
    using post_data_200 post_data_early_200 by blast
  then obtain rows where rows: "supabaseData env caller 0 events = Inr rows"
    and keys: "distinct (map row_key rows)" and st': "st' = fold upsert_row rows st"
    using save_bookings_200 body by metis
  have len: "length rows = length events"
    using rows by (rule supabaseData_length)
  have row: "to_row env caller i (events ! i) = Inr (rows ! i)"
    using supabaseData_nth [OF rows i] by simp
  then obtain usr where caller: "caller = Some usr"
    using to_row_caller by blast
  note f = to_row_fields [OF row [unfolded caller]]
  have "rows ! i \<in> set rows" using i len by simp
  then have mem: "rows ! i \<in> set st'"
    unfolding st' using keys by (intro fold_upsert_mem)
  have id: "row_id (rows ! i) = Num (now env i)"
    using f(6) eid by auto
  have stored: "\<exists>r \<in> set st'. row_id r = Num (now env i)
            \<and> get_prop (events ! i) ''title'' = Inr (row_title r)
            \<and> get_prop (events ! i) ''date'' = Inr (row_date r)
            \<and> get_prop (events ! i) ''startTime'' = Inr (start_time r)
            \<and> get_prop (events ! i) ''endTime'' = Inr (end_time r)"
    using mem id f(2-5) by blast
  have same: "save_bookings env st c (Arr (events[i := without_id (events ! i)])) =
      save_bookings env st c (req_body req)" for c
    unfolding body using i eid by (rule save_bookings_without_id)
  have auth: "authenticate env (req\<lparr>req_body := x\<rparr>) = authenticate env req" for x
    by (simp add: authenticate_def)
  have p: "post_data env st (req\<lparr>req_body := Arr (events[i := without_id (events ! i)])\<rparr>) =
           post_data env st req"
    by (simp add: post_data_def auth same split: sum.splits)
  have q: "post_data_early env st (req\<lparr>req_body := Arr (events[i := without_id (events ! i)])\<rparr>) =
           post_data_early env st req"
    by (simp add: post_data_early_def same split: option.splits provider_reply.splits)
  from stored p q show ?thesis by simp
qed

theorem falsy_id_replaced_by_clock_witness:
  "post_data demo_env []
      (req_as (Some ''Bearer tok-alice'')
         (Arr [mk_event [(''id'', Num 0)] ''Standup'' ''2024-01-05'' ''09:00'' ''09:15'']) []) =
     (Response 200 (Saved 1), [booking 1700000000000 ''Standup'' ''2024-01-05'' ''u-alice''])
   \<and> get_prop (mk_event [(''id'', Num 0)] ''Standup'' ''2024-01-05'' ''09:00'' ''09:15'') ''id'' = Inr (Num 0)
   \<and> \<not> truthy (Num 0)
   \<and> (\<exists>r \<in> set [booking 1700000000000 ''Standup'' ''2024-01-05'' ''u-alice''].
          row_id r = Num (now demo_env 0) \<and> row_title r = Str ''Standup'')
   \<and> post_data demo_env []
      (req_as (Some ''Bearer tok-alice'')
         (Arr [mk_event [] ''Standup'' ''2024-01-05'' ''09:00'' ''09:15'']) []) =
     (Response 200 (Saved 1), [booking 1700000000000 ''Standup'' ''2024-01-05'' ''u-alice''])"
proof -
  let ?e = "mk_event [(''id'', Num 0)] ''Standup'' ''2024-01-05'' ''09:00'' ''09:15''"
  let ?req = "req_as (Some ''Bearer tok-alice'') (Arr [?e]) []"
  let ?st' = "[booking 1700000000000 ''Standup'' ''2024-01-05'' ''u-alice'']"
  have v: "valid_event ?e = Inr True"
    by (simp add: valid_event_def and_then_def mk_event_def re_test_def matches_def
        date_pattern_def time_pattern_def is_digit_def)
  have r: "to_row demo_env (Some alice) 0 ?e = Inr (booking 1700000000000 ''Standup'' ''2024-01-05'' ''u-alice'')"
    by (simp add: to_row_def and_then_def mk_event_def demo_env_def alice_def booking_def)
  have nf: "\<not> store_fails demo_env Upsert"
    by (simp add: demo_env_def)
  have post: "post_data demo_env [] ?req = (Response 200 (Saved 1), ?st')"
    by (simp add: post_data_def auth_alice save_bookings_def v r db_upsert_def nf row_key_booking)
  have eid: "get_prop ?e ''id'' = Inr (Num 0)" "\<not> truthy (Num 0)"
    by (simp_all add: mk_event_def)
  have w: "without_id ?e = mk_event [] ''Standup'' ''2024-01-05'' ''09:00'' ''09:15''"
    by (simp add: mk_event_def)
  have upd: "?req\<lparr>req_body := Arr ([?e][0 := without_id ([?e] ! 0)])\<rparr> =
      req_as (Some ''Bearer tok-alice'') (Arr [mk_event [] ''Standup'' ''2024-01-05'' ''09:00'' ''09:15'']) []"
    by (simp add: w req_as_def)
  from falsy_id_replaced_by_clock [of demo_env "[]" ?req "Saved 1" ?st' "[?e]" 0 "Num 0"]
  show ?thesis
    using post eid upd by (simp add: booking_def)
qed

subsection \<open>Validation looks at digits only\<close>

text \<open>
  C10. The date \<^verbatim>\<open>2024-13-40\<close> and the times \<^verbatim>\<open>99:99\<close> pass the check; alice's request with
  them is accepted by both POST handlers and the row is upserted as sent.
\<close>

theorem unreal_date_and_time_accepted:
  "every valid_event [mk_event [] ''Standup'' ''2024-13-40'' ''99:99'' ''99:99''] = Inr True
   \<and> post_data demo_env []
        (req_as (Some ''Bearer tok-alice'') (Arr [mk_event [] ''Standup'' ''2024-13-40'' ''99:99'' ''99:99'']) []) =
      (Response 200 (Saved 1),
       [\<lparr> row_id = Num 1700000000000, row_title = Str ''Standup'', row_date = Str ''2024-13-40'',
          start_time = Str ''99:99'', end_time = Str ''99:99'', user_id = ''u-alice'' \<rparr>])
   \<and> post_data_early demo_env []
        (req_as (Some ''Bearer tok-alice'') (Arr [mk_event [] ''Standup'' ''2024-13-40'' ''99:99'' ''99:99'']) []) =
      (Response 200 (Saved 1),
       [\<lparr> row_id = Num 1700000000000, row_title = Str ''Standup'', row_date = Str ''2024-13-40'',
          start_time = Str ''99:99'', end_time = Str ''99:99'', user_id = ''u-alice'' \<rparr>])"
proof -
  let ?e = "mk_event [] ''Standup'' ''2024-13-40'' ''99:99'' ''99:99''"
  have v: "valid_event ?e = Inr True"
    by (simp add: valid_event_def and_then_def mk_event_def re_test_def matches_def
        date_pattern_def time_pattern_def is_digit_def)
  have r: "to_row demo_env (Some alice) 0 ?e =
      Inr \<lparr> row_id = Num 1700000000000, row_title = Str ''Standup'', row_date = Str ''2024-13-40'',
          start_time = Str ''99:99'', end_time = Str ''99:99'', user_id = ''u-alice'' \<rparr>"
    by (simp add: to_row_def and_then_def mk_event_def demo_env_def alice_def)
  have nf: "\<not> store_fails demo_env Upsert"
    by (simp add: demo_env_def)
  have s: "save_bookings demo_env [] (Some alice) (Arr [?e]) =
      (Response 200 (Saved 1),
       [\<lparr> row_id = Num 1700000000000, row_title = Str ''Standup'', row_date = Str ''2024-13-40'',
          start_time = Str ''99:99'', end_time = Str ''99:99'', user_id = ''u-alice'' \<rparr>])"
    by (simp add: save_bookings_def v r db_upsert_def nf row_key_def id_text_def)
  have early: "getUser demo_env (bearer_token ''Bearer tok-alice'') = Reply (Some alice) False"
    by (simp add: bearer_token_alice demo_env_def)
  show ?thesis
    by (simp add: v post_data_def auth_alice s post_data_early_def early)
qed


subsection \<open>POST followed by GET\<close>

text \<open>A store that keeps identifiers apart lists at most one item per identifier.\<close>

lemma keyed_store_lists_one_per_id:
  assumes keys: "distinct (map row_key st)"
    and res: "get_data env st req = Response 200 (Listing items)"
    and a: "a \<in> set items" and b: "b \<in> set items"
    and same: "item_id a = item_id b"
  shows "a = b"
proof -
  let ?m = "\<lambda>u. if u \<in> user_id ` set st then fetch_email env u Map.empty u else None"
  let ?rows = "sort_key (\<lambda>r. order_key (row_date r)) st"
  have items: "map_js (transform ?m) ?rows = Inr items"
    using res by (rule get_data_200)
  from map_js_mem [OF items a] map_js_mem [OF items b]
  obtain ra rb where ra: "ra \<in> set st" "transform ?m ra = Inr a"
    and rb: "rb \<in> set st" "transform ?m rb = Inr b"
    by auto
  have "row_id ra = row_id rb"
    using same transform_fields(1) [OF ra(2)] transform_fields(1) [OF rb(2)] by simp
  then have "row_key ra = row_key rb"
    by (simp add: row_key_def)
  moreover have "inj_on row_key (set st)"
    using keys by (simp add: distinct_map)
  ultimately have "ra = rb"
    using ra(1) rb(1) by (auto dest: inj_onD)
  then show ?thesis
    using ra(2) rb(2) by simp
qed

text \<open>
  What does hold of a POST followed by a GET: when the rows prepared from a batch that
  passes the check have identifiers with pairwise different keys and the store accepts the
  upsert, the answer is 200 with the count, and a listing that a GET then returns has, for
  every submitted element, an item with that element's title, date and times, with the
  element's own identifier when it is truthy and the clock's reading otherwise, and with
  the caller as \<^verbatim>\<open>userId\<close>, whatever owner the body names.
\<close>

lemma post_then_get_lists_batch:
  assumes auth: "authenticate env req = Inr usr"
    and body: "req_body req = Arr events"
    and valid: "every valid_event events = Inr True"
    and rows: "supabaseData env (Some usr) 0 events = Inr rows"
    and texts: "None \<notin> set (map row_key rows)"
    and keys: "distinct (map row_key rows)"
    and up: "\<not> store_fails env Upsert"
    and get: "get_data env' (fold upsert_row rows st) req' = Response 200 (Listing items)"
  shows "post_data env st req = (Response 200 (Saved (length events)), fold upsert_row rows st)"
    and "\<forall>i<length events. \<exists>it \<in> set items.
            userId it = uid usr
          \<and> (\<exists>eid. get_prop (events ! i) ''id'' = Inr eid
                \<and> item_id it = (if truthy eid then eid else Num (now env i)))
          \<and> get_prop (events ! i) ''title'' = Inr (item_title it)
          \<and> get_prop (events ! i) ''date'' = Inr (item_date it)
          \<and> get_prop (events ! i) ''startTime'' = Inr (startTime it)
          \<and> get_prop (events ! i) ''endTime'' = Inr (endTime it)"
proof -
  let ?st' = "fold upsert_row rows st"
  let ?m = "\<lambda>u. if u \<in> user_id ` set ?st' then fetch_email env' u Map.empty u else None"
  let ?rows = "sort_key (\<lambda>r. order_key (row_date r)) ?st'"
  show "post_data env st req = (Response 200 (Saved (length events)), ?st')"
    using auth body valid rows texts keys up
    by (simp add: post_data_def save_bookings_def db_upsert_def)
  have items: "map_js (transform ?m) ?rows = Inr items"
    using get by (rule get_data_200)
  have len: "length rows = length events"
    using rows by (rule supabaseData_length)
  show "\<forall>i<length events. \<exists>it \<in> set items.
            userId it = uid usr
          \<and> (\<exists>eid. get_prop (events ! i) ''id'' = Inr eid
                \<and> item_id it = (if truthy eid then eid else Num (now env i)))
          \<and> get_prop (events ! i) ''title'' = Inr (item_title it)
          \<and> get_prop (events ! i) ''date'' = Inr (item_date it)
          \<and> get_prop (events ! i) ''startTime'' = Inr (startTime it)
          \<and> get_prop (events ! i) ''endTime'' = Inr (endTime it)"
  proof (intro allI impI)
    fix i
    assume i: "i < length events"
    have row: "to_row env (Some usr) i (events ! i) = Inr (rows ! i)"
      using supabaseData_nth [OF rows i] by simp
    note f = to_row_fields [OF row]
    have "rows ! i \<in> set rows" using i len by simp
    then have "rows ! i \<in> set ?st'"
      using keys by (intro fold_upsert_mem)
    then have "rows ! i \<in> set ?rows"
      by simp
    then obtain it where it: "it \<in> set items" "transform ?m (rows ! i) = Inr it"
      using map_js_mem_src [OF items] by blast
    note g = transform_fields [OF it(2)]
    show "\<exists>it \<in> set items.
            userId it = uid usr
          \<and> (\<exists>eid. get_prop (events ! i) ''id'' = Inr eid
                \<and> item_id it = (if truthy eid then eid else Num (now env i)))
          \<and> get_prop (events ! i) ''title'' = Inr (item_title it)
          \<and> get_prop (events ! i) ''date'' = Inr (item_date it)
          \<and> get_prop (events ! i) ''startTime'' = Inr (startTime it)
          \<and> get_prop (events ! i) ''endTime'' = Inr (endTime it)"
      using it(1) f g by (intro bexI [of _ it]) simp_all
  qed
qed

text \<open>
  Two elements with the same client-supplied identifier are refused as one batch: that is
  the upsert by identifier.
\<close>

lemma duplicate_client_id_refused:
  "post_data demo_env []
       (req_as (Some ''Bearer tok-alice'')
         (Arr [mk_event [(''id'', Num 7)] ''Standup'' ''2024-01-05'' ''09:00'' ''09:15'',
               mk_event [(''id'', Num 7)] ''Retro'' ''2024-01-04'' ''09:00'' ''09:15'']) []) =
       (Response 500 (Error ''Failed to save data''), [])"
proof -
  let ?e1 = "mk_event [(''id'', Num 7)] ''Standup'' ''2024-01-05'' ''09:00'' ''09:15''"
  let ?e2 = "mk_event [(''id'', Num 7)] ''Retro'' ''2024-01-04'' ''09:00'' ''09:15''"
  have v: "valid_event ?e1 = Inr True" "valid_event ?e2 = Inr True"
    by (simp_all add: valid_event_def and_then_def mk_event_def re_test_def matches_def
        date_pattern_def time_pattern_def is_digit_def)
  then have valid: "every valid_event [?e1, ?e2] = Inr True"
    by simp
  have r: "to_row demo_env (Some alice) 0 ?e1 = Inr (booking 7 ''Standup'' ''2024-01-05'' ''u-alice'')"
    "to_row demo_env (Some alice) 1 ?e2 = Inr (booking 7 ''Retro'' ''2024-01-04'' ''u-alice'')"
    by (simp_all add: to_row_def and_then_def mk_event_def demo_env_def alice_def booking_def)
  then have rows: "supabaseData demo_env (Some alice) 0 [?e1, ?e2] =
      Inr [booking 7 ''Standup'' ''2024-01-05'' ''u-alice'', booking 7 ''Retro'' ''2024-01-04'' ''u-alice'']"
    by simp
  show ?thesis
    by (simp add: post_data_def auth_alice save_bookings_def valid rows db_upsert_def row_key_booking
        del: every.simps supabaseData.simps)
qed

text \<open>Two elements without an identifier, mapped under the same reading of the clock, get one key.\<close>

lemma same_reading_same_key:
  assumes "to_row env caller i e = Inr r" and "to_row env caller j e' = Inr r'"
    and "get_prop e ''id'' = Inr eid" and "\<not> truthy eid"
    and "get_prop e' ''id'' = Inr eid'" and "\<not> truthy eid'"
    and "now env i = now env j"
  shows "row_key r = row_key r'"
  using assms by (auto simp: to_row_def and_then_def row_key_def split: sum.splits option.splits)

text \<open>
  C1. The claim says that every submitted booking of a batch that passes the check is
  listed afterwards. Alice posts two new bookings, neither with an identifier. The handler
  gives each \<^verbatim>\<open>Date.now()\<close> as its identifier, read twice in one synchronous \<^verbatim>\<open>map\<close> and so
  the same; the batch then names one key twice, the store refuses it, the answer is 500
  and a GET lists neither booking.
\<close>

theorem two_new_bookings_collide:
  "authenticate demo_env
     (req_as (Some ''Bearer tok-alice'')
       (Arr [mk_event [] ''Standup'' ''2024-01-05'' ''09:00'' ''09:15'',
             mk_event [] ''Retro'' ''2024-01-04'' ''09:00'' ''09:15'']) []) = Inr alice
   \<and> every valid_event
       [mk_event [] ''Standup'' ''2024-01-05'' ''09:00'' ''09:15'',
        mk_event [] ''Retro'' ''2024-01-04'' ''09:00'' ''09:15''] = Inr True
   \<and> supabaseData demo_env (Some alice) 0
       [mk_event [] ''Standup'' ''2024-01-05'' ''09:00'' ''09:15'',
        mk_event [] ''Retro'' ''2024-01-04'' ''09:00'' ''09:15''] =
       Inr [booking 1700000000000 ''Standup'' ''2024-01-05'' ''u-alice'',
            booking 1700000000000 ''Retro'' ''2024-01-04'' ''u-alice'']
   \<and> post_data demo_env []
       (req_as (Some ''Bearer tok-alice'')
         (Arr [mk_event [] ''Standup'' ''2024-01-05'' ''09:00'' ''09:15'',
               mk_event [] ''Retro'' ''2024-01-04'' ''09:00'' ''09:15'']) []) =
       (Response 500 (Error ''Failed to save data''), [])
   \<and> get_data demo_env [] (req_as None Undefined []) = Response 200 (Listing [])"
proof -
  let ?e1 = "mk_event [] ''Standup'' ''2024-01-05'' ''09:00'' ''09:15''"
  let ?e2 = "mk_event [] ''Retro'' ''2024-01-04'' ''09:00'' ''09:15''"
  have v: "valid_event ?e1 = Inr True" "valid_event ?e2 = Inr True"
    by (simp_all add: valid_event_def and_then_def mk_event_def re_test_def matches_def
        date_pattern_def time_pattern_def is_digit_def)
  then have valid: "every valid_event [?e1, ?e2] = Inr True"
    by simp
  have r: "to_row demo_env (Some alice) 0 ?e1 =
        Inr (booking 1700000000000 ''Standup'' ''2024-01-05'' ''u-alice'')"
    "to_row demo_env (Some alice) 1 ?e2 =
        Inr (booking 1700000000000 ''Retro'' ''2024-01-04'' ''u-alice'')"
    by (simp_all add: to_row_def and_then_def mk_event_def demo_env_def alice_def booking_def)
  then have rows: "supabaseData demo_env (Some alice) 0 [?e1, ?e2] =
      Inr [booking 1700000000000 ''Standup'' ''2024-01-05'' ''u-alice'',
           booking 1700000000000 ''Retro'' ''2024-01-04'' ''u-alice'']"
    by simp
  have post: "post_data demo_env [] (req_as (Some ''Bearer tok-alice'') (Arr [?e1, ?e2]) []) =
       (Response 500 (Error ''Failed to save data''), [])"
    by (simp add: post_data_def auth_alice save_bookings_def valid rows db_upsert_def row_key_booking
        del: every.simps supabaseData.simps)
  have get: "get_data demo_env [] (req_as None Undefined []) = Response 200 (Listing [])"
    by (simp add: get_data_def db_select_all_def demo_env_def uniq_def)
  from auth_alice valid rows post get show ?thesis
    by blast
qed

end
